theory Spec2Isabelle
  imports Complex_Main
begin

section \<open>The signaling server of \<^verbatim>\<open>src/server.js\<close>\<close>

text \<open>
  The server keeps two registries, \<^verbatim>\<open>rooms\<close> (room id to a Set of connections) and
  \<^verbatim>\<open>peerByWs\<close> (connection to \<^verbatim>\<open>{ roomId, userId }\<close>), and every connection has two
  variables of its own, \<^verbatim>\<open>roomId\<close> and \<^verbatim>\<open>userId\<close>, in the closure of its
  \<^verbatim>\<open>'connection'\<close> callback. The handlers run to completion one after the other on
  the event loop, so the server is a function from a state and an event to a state.
\<close>

subsection \<open>JavaScript values\<close>

text \<open>
  What \<^verbatim>\<open>JSON.parse\<close> returns, and \<^verbatim>\<open>undefined\<close> for a property that is not there.
  A number is the rational value of the double (\<^verbatim>\<open>-0\<close> and \<^verbatim>\<open>0\<close> are one value, as
  they are for \<^verbatim>\<open>===\<close>, for \<^verbatim>\<open>!\<close> and for \<^verbatim>\<open>JSON.stringify\<close>);
  \<open>JInfinity\<close> is what a literal such as \<^verbatim>\<open>1e999\<close> parses to, with its sign.
  An object is the list of its own properties, each key once.
\<close>

datatype jsval =
    JUndefined
  | JNull
  | JBool bool
  | JNum rat
  | JInfinity bool
  | JStr string
  | JArr "jsval list"
  | JObj "(string \<times> jsval) list"

datatype exn = TypeError

text \<open>\<^verbatim>\<open>!!v\<close>: the empty string, zero, \<^verbatim>\<open>null\<close>, \<^verbatim>\<open>undefined\<close> and \<^verbatim>\<open>false\<close> are falsy.\<close>

fun truthy :: "jsval \<Rightarrow> bool" where
  "truthy JUndefined = False"
| "truthy JNull = False"
| "truthy (JBool b) = b"
| "truthy (JNum q) = (q \<noteq> 0)"
| "truthy (JInfinity neg) = True"
| "truthy (JStr s) = (s \<noteq> [])"
| "truthy (JArr vs) = True"
| "truthy (JObj kvs) = True"

text \<open>
  \<^verbatim>\<open>a === b\<close> where \<open>a\<close> and \<open>b\<close> come from two different calls of \<^verbatim>\<open>JSON.parse\<close>
  (or one of them is \<^verbatim>\<open>undefined\<close> or a string the server built): primitives are
  compared by value, and two arrays or objects are never the same reference. The server
  compares a stored \<^verbatim>\<open>userId\<close>, parsed from an earlier \<^verbatim>\<open>join\<close>, with the \<^verbatim>\<open>to\<close> of
  the message at hand.
\<close>

definition strict_equals :: "jsval \<Rightarrow> jsval \<Rightarrow> bool" where
  "strict_equals a b = (case a of JArr vs \<Rightarrow> False | JObj kvs \<Rightarrow> False | _ \<Rightarrow> a = b)"

text \<open>
  \<^verbatim>\<open>msg.k\<close> for a \<open>msg\<close> that is not \<^verbatim>\<open>null\<close>, for the property names the server reads
  (\<^verbatim>\<open>type\<close>, \<^verbatim>\<open>roomId\<close>, \<^verbatim>\<open>userId\<close>, \<^verbatim>\<open>to\<close>, \<^verbatim>\<open>sdp\<close>, \<^verbatim>\<open>candidate\<close>): no prototype
  has them, so only an object's own property gives a value.
\<close>

fun field :: "jsval \<Rightarrow> string \<Rightarrow> jsval" where
  "field (JObj kvs) k = (case map_of kvs k of None \<Rightarrow> JUndefined | Some v \<Rightarrow> v)"
| "field v k = JUndefined"

subsection \<open>Room-id normalisation\<close>

text \<open>
  \<^verbatim>\<open>String.prototype.trim\<close> and \<^verbatim>\<open>toLowerCase\<close> on strings whose code units are below
  256 (a \<^typ>\<open>char\<close> is the code unit): the white space and line terminators in that range
  are U+0009 to U+000D, U+0020 and U+00A0; the letters with a lower-case form are A to Z
  and U+00C0 to U+00DE without U+00D7.
\<close>

definition is_white_space :: "char \<Rightarrow> bool" where
  "is_white_space c = (of_char c \<in> {9, 10, 11, 12, 13, 32, 160 :: nat})"

definition trim :: "string \<Rightarrow> string" where
  "trim s = rev (dropWhile is_white_space (rev (dropWhile is_white_space s)))"

definition lower_char :: "char \<Rightarrow> char" where
  "lower_char c =
     (let n = of_char c :: nat
      in if (65 \<le> n \<and> n \<le> 90) \<or> (192 \<le> n \<and> n \<le> 222 \<and> n \<noteq> 215)
         then char_of (n + 32) else c)"

definition toLowerCase :: "string \<Rightarrow> string" where
  "toLowerCase s = map lower_char s"

text \<open>
  \<^verbatim>\<open>(v || '').trim().toLowerCase()\<close>: a truthy \<open>v\<close> that is not a string has no
  \<^verbatim>\<open>trim\<close> method, and the call throws.
\<close>

definition requested_room :: "jsval \<Rightarrow> exn + string" where
  "requested_room v =
     (if \<not> truthy v then Inr (toLowerCase (trim []))
      else case v of JStr s \<Rightarrow> Inr (toLowerCase (trim s)) | _ \<Rightarrow> Inl TypeError)"

subsection \<open>Generated participant ids\<close>

text \<open>
  \<^verbatim>\<open>`user-${Date.now()}-${Math.random().toString(36).slice(2, 9)}`\<close>. The clock and
  the random digits are inputs of the handler.
\<close>

record nondet =
  date_now :: nat
  random_digits :: string

fun decimal :: "nat \<Rightarrow> string" where
  "decimal n =
     (if n < 10 then [char_of (48 + n)]
      else decimal (n div 10) @ [char_of (48 + n mod 10)])"

declare decimal.simps [simp del]

definition generated :: "nondet \<Rightarrow> string" where
  "generated nd = ''user-'' @ decimal (date_now nd) @ ''-'' @ random_digits nd"

subsection \<open>State\<close>

type_synonym ws = nat

record peer =
  roomId :: string
  userId :: jsval

text \<open>
  The object handed to \<^verbatim>\<open>send\<close>, before \<^verbatim>\<open>JSON.stringify\<close> (which drops a property
  whose value is \<^verbatim>\<open>undefined\<close>):
  \<^item> \<open>Error m\<close> is \<^verbatim>\<open>{ type: 'error', message: m }\<close>;
  \<^item> \<open>Joined r u ps\<close> is \<^verbatim>\<open>{ type: 'joined', roomId: r, userId: u, peers: ps }\<close>;
  \<^item> \<open>Peer_joined r u\<close> is \<^verbatim>\<open>{ type: 'peer-joined', roomId: r, userId: u }\<close>;
  \<^item> \<open>Relay t f to sdp c\<close> is \<^verbatim>\<open>{ type: t, from: f, to: to, sdp: sdp, candidate: c }\<close>;
  \<^item> \<open>Peer_left u\<close> is \<^verbatim>\<open>{ type: 'peer-left', userId: u }\<close>.
\<close>

datatype payload =
    Error string
  | Joined string jsval "jsval list"
  | Peer_joined string jsval
  | Relay string jsval jsval jsval jsval
  | Peer_left jsval

text \<open>
  \<open>rooms\<close>: a Set keeps its elements once and in insertion order, so it is a list.
  \<open>var_roomId\<close> and \<open>var_userId\<close> are the closure variables of each connection
  (\<^verbatim>\<open>let roomId = null; let userId = null\<close>). \<open>readyState\<close> is the transport's (1 is
  OPEN); the server reads it and never writes it. \<open>wire\<close> lists the calls of
  \<^verbatim>\<open>ws.send\<close>, oldest first.
\<close>

record state =
  rooms :: "string \<rightharpoonup> ws list"
  peerByWs :: "ws \<rightharpoonup> peer"
  var_roomId :: "ws \<Rightarrow> string option"
  var_userId :: "ws \<Rightarrow> jsval"
  readyState :: "ws \<Rightarrow> nat"
  wire :: "(ws \<times> payload) list"

text \<open>
  No room, no entry; a connection starts with both closure variables \<^verbatim>\<open>null\<close>, and is
  OPEN when the server gets it.
\<close>

definition init :: state where
  "init = \<lparr> rooms = Map.empty, peerByWs = Map.empty,
            var_roomId = (\<lambda>w. None), var_userId = (\<lambda>w. JNull),
            readyState = (\<lambda>w. 1), wire = [] \<rparr>"

subsection \<open>Set operations\<close>

definition set_add :: "ws list \<Rightarrow> ws \<Rightarrow> ws list" where
  "set_add room w = (if w \<in> set room then room else room @ [w])"

definition set_delete :: "ws list \<Rightarrow> ws \<Rightarrow> ws list" where
  "set_delete room w = removeAll w room"

text \<open>\<^verbatim>\<open>rooms.get(r) || new Set()\<close>: the members of a room, none when there is no entry.\<close>

definition members :: "state \<Rightarrow> string \<Rightarrow> ws list" where
  "members s r = (case rooms s r of None \<Rightarrow> [] | Some room \<Rightarrow> room)"

subsection \<open>The functions of the server\<close>

definition send :: "ws \<Rightarrow> payload \<Rightarrow> state \<Rightarrow> state" where
  "send w p s = (if readyState s w = 1 then s\<lparr>wire := wire s @ [(w, p)]\<rparr> else s)"

primrec forEach :: "(ws \<Rightarrow> state \<Rightarrow> state) \<Rightarrow> ws list \<Rightarrow> state \<Rightarrow> state" where
  "forEach f [] s = s"
| "forEach f (w # room) s = forEach f room (f w s)"

definition broadcastToRoom :: "string \<Rightarrow> payload \<Rightarrow> state \<Rightarrow> state" where
  "broadcastToRoom r p s =
     (case rooms s r of
        None \<Rightarrow> s
      | Some room \<Rightarrow> forEach (\<lambda>w s'. if readyState s' w = 1 then send w p s' else s') room s)"

definition broadcastToRoomExcept :: "string \<Rightarrow> ws \<Rightarrow> payload \<Rightarrow> state \<Rightarrow> state" where
  "broadcastToRoomExcept r excludeWs p s =
     (case rooms s r of
        None \<Rightarrow> s
      | Some room \<Rightarrow>
          forEach (\<lambda>w s'. if w \<noteq> excludeWs \<and> readyState s' w = 1 then send w p s' else s')
            room s)"

definition leaveRoom :: "ws \<Rightarrow> state \<Rightarrow> state" where
  "leaveRoom w s =
     (case peerByWs s w of
        None \<Rightarrow> s
      | Some info \<Rightarrow>
          let s1 = s\<lparr>peerByWs := (peerByWs s)(w := None)\<rparr>
          in (case rooms s1 (roomId info) of
                None \<Rightarrow> s1
              | Some room \<Rightarrow>
                  let room' = set_delete room w;
                      s2 = s1\<lparr>rooms := (rooms s1)(roomId info \<mapsto> room')\<rparr>
                  in if length room' = 0
                     then s2\<lparr>rooms := (rooms s2)(roomId info := None)\<rparr>
                     else broadcastToRoom (roomId info) (Peer_left (userId info)) s2))"

text \<open>\<^verbatim>\<open>peerByWs.get(w)?.userId\<close>\<close>

definition userId_of :: "state \<Rightarrow> ws \<Rightarrow> jsval" where
  "userId_of s w = (case peerByWs s w of None \<Rightarrow> JUndefined | Some info \<Rightarrow> userId info)"

text \<open>\<^verbatim>\<open>msg.userId || `user-...`\<close>\<close>

definition join_userId :: "nondet \<Rightarrow> jsval \<Rightarrow> jsval" where
  "join_userId nd msg =
     (if truthy (field msg ''userId'') then field msg ''userId'' else JStr (generated nd))"

text \<open>The \<^verbatim>\<open>'join'\<close> case of the message handler.\<close>

definition join_case :: "nondet \<Rightarrow> ws \<Rightarrow> jsval \<Rightarrow> state \<Rightarrow> exn + state" where
  "join_case nd w msg s =
     (case requested_room (field msg ''roomId'') of
        Inl e \<Rightarrow> Inl e
      | Inr requestedRoom \<Rightarrow>
          if requestedRoom = [] then Inr (send w (Error ''Room ID required'') s)
          else
            let room = members s requestedRoom
            in if length room \<ge> 2
               then Inr (send w (Error ''Room is full (max 2 participants)'') s)
               else
                 let u = join_userId nd msg;
                     room' = set_add room w;
                     s1 = s\<lparr> var_userId := (var_userId s)(w := u),
                             var_roomId := (var_roomId s)(w := Some requestedRoom),
                             rooms := (rooms s)(requestedRoom \<mapsto> room'),
                             peerByWs := (peerByWs s)(w \<mapsto> \<lparr>roomId = requestedRoom, userId = u\<rparr>) \<rparr>;
                     peersInRoom = map (userId_of s1) (filter (\<lambda>x. x \<noteq> w) room');
                     s2 = send w (Joined requestedRoom u peersInRoom) s1
                 in Inr (broadcastToRoomExcept requestedRoom w (Peer_joined requestedRoom u) s2))"

text \<open>The \<^verbatim>\<open>'offer'\<close>, \<^verbatim>\<open>'answer'\<close>, \<^verbatim>\<open>'ice-candidate'\<close> case; \<open>t\<close> is \<^verbatim>\<open>msg.type\<close>.\<close>

definition relay_case :: "string \<Rightarrow> ws \<Rightarrow> jsval \<Rightarrow> state \<Rightarrow> exn + state" where
  "relay_case t w msg s =
     (case var_roomId s w of
        None \<Rightarrow> Inr (send w (Error ''Join a room first'') s)
      | Some r \<Rightarrow>
          if r = [] then Inr (send w (Error ''Join a room first'') s)
          else
            let targetUserId = field msg ''to''
            in (case rooms s r of
                  None \<Rightarrow> Inr s
                | Some room \<Rightarrow>
                    (case find (\<lambda>x. x \<noteq> w \<and> strict_equals (userId_of s x) targetUserId) room of
                       None \<Rightarrow> Inr (send w (Error ''Peer not found or disconnected'') s)
                     | Some targetWs \<Rightarrow>
                         if readyState s targetWs \<noteq> 1
                         then Inr (send w (Error ''Peer not found or disconnected'') s)
                         else Inr (send targetWs
                                     (Relay t (var_userId s w) targetUserId
                                        (field msg ''sdp'') (field msg ''candidate'')) s))))"

text \<open>
  The \<^verbatim>\<open>'message'\<close> handler of connection \<open>w\<close>. \<open>parsed\<close> is the result of
  \<^verbatim>\<open>JSON.parse(raw.toString())\<close>, \<open>None\<close> when it throws. Reading \<^verbatim>\<open>msg.type\<close> of
  \<^verbatim>\<open>null\<close> throws, and nothing catches it.
\<close>

definition on_message :: "nondet \<Rightarrow> ws \<Rightarrow> jsval option \<Rightarrow> state \<Rightarrow> exn + state" where
  "on_message nd w parsed s =
     (case parsed of
        None \<Rightarrow> Inr (send w (Error ''Invalid JSON'') s)
      | Some msg \<Rightarrow>
          if msg = JNull \<or> msg = JUndefined then Inl TypeError
          else
            let t = field msg ''type''
            in if t = JStr ''join'' then join_case nd w msg s
               else if t = JStr ''offer'' then relay_case ''offer'' w msg s
               else if t = JStr ''answer'' then relay_case ''answer'' w msg s
               else if t = JStr ''ice-candidate'' then relay_case ''ice-candidate'' w msg s
               else if t = JStr ''leave'' then Inr (leaveRoom w s)
               else Inr (send w (Error ''Unknown message type'') s))"

text \<open>The \<^verbatim>\<open>'close'\<close> handler of connection \<open>w\<close>.\<close>

definition on_close :: "ws \<Rightarrow> state \<Rightarrow> state" where
  "on_close w s = leaveRoom w s"

subsection \<open>Runs\<close>

text \<open>
  An event is a message arriving on a connection, the close of a connection, or the
  transport changing a connection's \<^verbatim>\<open>readyState\<close>. A handler that throws ends the run.
\<close>

datatype event =
    Message ws "jsval option" nondet
  | Close ws
  | Transport ws nat

fun step :: "state \<Rightarrow> event \<Rightarrow> exn + state" where
  "step s (Message w parsed nd) = on_message nd w parsed s"
| "step s (Close w) = Inr (on_close w s)"
| "step s (Transport w n) = Inr (s\<lparr>readyState := (readyState s)(w := n)\<rparr>)"

fun run :: "state \<Rightarrow> event list \<Rightarrow> exn + state" where
  "run s [] = Inr s"
| "run s (e # es) = (case step s e of Inl x \<Rightarrow> Inl x | Inr s' \<Rightarrow> run s' es)"

subsection \<open>Auxiliary notions\<close>

text \<open>
  What holds of the registries after every run: an entry of \<open>peerByWs\<close> agrees with the
  connection's closure variables and the connection is in the room the entry names; a
  room in the registry has a non-empty id and one or two members, each once.
\<close>

definition inv :: "state \<Rightarrow> bool" where
  "inv s \<longleftrightarrow>
     (\<forall>w info. peerByWs s w = Some info \<longrightarrow>
        var_roomId s w = Some (roomId info) \<and> var_userId s w = userId info \<and>
        (\<exists>room. rooms s (roomId info) = Some room \<and> w \<in> set room)) \<and>
     (\<forall>r room. rooms s r = Some room \<longrightarrow>
        r \<noteq> [] \<and> room \<noteq> [] \<and> distinct room \<and> length room \<le> 2)"

text \<open>
  \<open>rejoin s e\<close>: the event is a \<^verbatim>\<open>join\<close> message on a connection that has an entry in
  \<open>peerByWs\<close>. \<open>no_rejoin s es\<close>: no event of the run \<open>es\<close> from \<open>s\<close> is one.
\<close>

fun rejoin :: "state \<Rightarrow> event \<Rightarrow> bool" where
  "rejoin s (Message w (Some msg) nd) =
     (field msg ''type'' = JStr ''join'' \<and> peerByWs s w \<noteq> None)"
| "rejoin s e = False"

fun no_rejoin :: "state \<Rightarrow> event list \<Rightarrow> bool" where
  "no_rejoin s [] = True"
| "no_rejoin s (e # es) =
     (\<not> rejoin s e \<and> (case step s e of Inl x \<Rightarrow> True | Inr s' \<Rightarrow> no_rejoin s' es))"

text \<open>
  \<open>one_room s\<close>: a member of a room has an entry in \<open>peerByWs\<close> that names this room.
\<close>

definition one_room :: "state \<Rightarrow> bool" where
  "one_room s \<longleftrightarrow>
     (\<forall>r room w. rooms s r = Some room \<and> w \<in> set room \<longrightarrow>
        (\<exists>info. peerByWs s w = Some info \<and> roomId info = r))"

subsection \<open>Example messages\<close>

text \<open>
  The messages the client of \<^verbatim>\<open>src/public/app.js\<close> sends, and a \<^verbatim>\<open>join\<close> that names
  its participant.
\<close>

definition msg_join :: "string \<Rightarrow> jsval" where
  "msg_join r = JObj [(''type'', JStr ''join''), (''roomId'', JStr r)]"

definition msg_join_as :: "string \<Rightarrow> string \<Rightarrow> jsval" where
  "msg_join_as r u = JObj [(''type'', JStr ''join''), (''roomId'', JStr r), (''userId'', JStr u)]"

definition msg_leave :: jsval where
  "msg_leave = JObj [(''type'', JStr ''leave'')]"

definition msg_offer :: "string \<Rightarrow> jsval \<Rightarrow> jsval" where
  "msg_offer u sdp = JObj [(''type'', JStr ''offer''), (''to'', JStr u), (''sdp'', sdp)]"

definition clock :: nondet where
  "clock = \<lparr>date_now = 42, random_digits = ''k3x9q2a''\<rparr>"

section \<open>Basic facts\<close>

lemma send_fields [simp]:
  "rooms (send w p s) = rooms s"
  "peerByWs (send w p s) = peerByWs s"
  "var_roomId (send w p s) = var_roomId s"
  "var_userId (send w p s) = var_userId s"
  "readyState (send w p s) = readyState s"
  "wire (send w p s) = wire s @ (if readyState s w = 1 then [(w, p)] else [])"
  by (simp_all add: send_def)

lemma forEach_send:
  "forEach (\<lambda>w s'. if P w \<and> readyState s' w = 1 then send w p s' else s') room s =
     s\<lparr>wire := wire s @ map (\<lambda>w. (w, p)) (filter (\<lambda>w. P w \<and> readyState s w = 1) room)\<rparr>"
  by (induction room arbitrary: s) (simp_all add: send_def)

lemma broadcastToRoom_eq:
  "broadcastToRoom r p s =
     s\<lparr>wire := wire s @ map (\<lambda>w. (w, p))
        (filter (\<lambda>w. readyState s w = 1) (case rooms s r of None \<Rightarrow> [] | Some room \<Rightarrow> room))\<rparr>"
  using forEach_send [of "\<lambda>w. True" p _ s]
  by (simp add: broadcastToRoom_def split: option.splits)

lemma broadcastToRoomExcept_eq:
  "broadcastToRoomExcept r x p s =
     s\<lparr>wire := wire s @ map (\<lambda>w. (w, p))
        (filter (\<lambda>w. w \<noteq> x \<and> readyState s w = 1) (case rooms s r of None \<Rightarrow> [] | Some room \<Rightarrow> room))\<rparr>"
  using forEach_send [of "\<lambda>w. w \<noteq> x" p _ s]
  by (simp add: broadcastToRoomExcept_def split: option.splits)

lemma leaveRoom_None: "peerByWs s w = None \<Longrightarrow> leaveRoom w s = s"
  by (simp add: leaveRoom_def)

lemma leaveRoom_peerByWs: "peerByWs (leaveRoom w s) = (peerByWs s)(w := None)"
  by (auto simp: leaveRoom_def Let_def broadcastToRoom_eq split: option.splits)

lemma leaveRoom_idem: "leaveRoom w (leaveRoom w s) = leaveRoom w s"
  by (rule leaveRoom_None) (simp add: leaveRoom_peerByWs)

lemma inv_wire [simp]: "inv (s\<lparr>wire := x\<rparr>) = inv s"
  by (simp add: inv_def)

lemma inv_send [simp]: "inv (send w p s) = inv s"
  by (simp add: send_def)

lemma inv_readyState [simp]: "inv (s\<lparr>readyState := x\<rparr>) = inv s"
  by (simp add: inv_def)

lemma inv_init: "inv init"
  by (simp add: inv_def init_def)

lemma inv_assoc:
  "inv s \<Longrightarrow> peerByWs s w = Some info \<Longrightarrow>
     var_roomId s w = Some (roomId info) \<and> var_userId s w = userId info \<and>
     (\<exists>room. rooms s (roomId info) = Some room \<and> w \<in> set room)"
  by (simp add: inv_def)

lemma inv_room:
  "inv s \<Longrightarrow> rooms s r = Some room \<Longrightarrow>
     r \<noteq> [] \<and> room \<noteq> [] \<and> distinct room \<and> length room \<le> 2"
  unfolding inv_def by blast

lemma leaveRoom_Some:
  "peerByWs s w = Some info \<Longrightarrow> rooms s (roomId info) = Some room \<Longrightarrow>
   leaveRoom w s =
     (if removeAll w room = []
      then s\<lparr>peerByWs := (peerByWs s)(w := None), rooms := (rooms s)(roomId info := None)\<rparr>
      else s\<lparr>peerByWs := (peerByWs s)(w := None),
             rooms := (rooms s)(roomId info \<mapsto> removeAll w room),
             wire := wire s @ map (\<lambda>x. (x, Peer_left (userId info)))
                       (filter (\<lambda>x. readyState s x = 1) (removeAll w room))\<rparr>)"
  by (simp add: leaveRoom_def Let_def broadcastToRoom_eq set_delete_def)

lemma leaveRoom_no_room:
  "peerByWs s w = Some info \<Longrightarrow> rooms s (roomId info) = None \<Longrightarrow>
   leaveRoom w s = s\<lparr>peerByWs := (peerByWs s)(w := None)\<rparr>"
  by (simp add: leaveRoom_def Let_def)

lemma inv_leaveRoom:
  assumes "inv s"
  shows "inv (leaveRoom w s)"
proof (cases "peerByWs s w")
  case None
  then show ?thesis using assms by (simp add: leaveRoom_None)
next
  case (Some info)
  from inv_assoc [OF assms Some] obtain room
    where room: "rooms s (roomId info) = Some room" and mem: "w \<in> set room"
    by blast
  note R = inv_room [OF assms room]
  let ?s' = "leaveRoom w s"
  have eq: "?s' = (if removeAll w room = []
      then s\<lparr>peerByWs := (peerByWs s)(w := None), rooms := (rooms s)(roomId info := None)\<rparr>
      else s\<lparr>peerByWs := (peerByWs s)(w := None),
             rooms := (rooms s)(roomId info \<mapsto> removeAll w room),
             wire := wire s @ map (\<lambda>x. (x, Peer_left (userId info)))
                       (filter (\<lambda>x. readyState s x = 1) (removeAll w room))\<rparr>)"
    by (rule leaveRoom_Some [OF Some room])
  have assoc: "var_roomId ?s' x = Some (roomId i) \<and> var_userId ?s' x = userId i \<and>
        (\<exists>m. rooms ?s' (roomId i) = Some m \<and> x \<in> set m)"
    if x: "peerByWs ?s' x = Some i" for x i
  proof -
    from x have xw: "x \<noteq> w" and xi: "peerByWs s x = Some i"
      by (auto simp: eq split: if_splits)
    from inv_assoc [OF assms xi] obtain m
      where v: "var_roomId s x = Some (roomId i)" "var_userId s x = userId i"
        and m: "rooms s (roomId i) = Some m" "x \<in> set m"
      by blast
    show ?thesis
    proof (cases "roomId i = roomId info")
      case True
      with m room have "m = room" by simp
      with m xw have x': "x \<in> set (removeAll w room)" by simp
      then have "set (removeAll w room) \<noteq> {}" by auto
      then have "removeAll w room \<noteq> []" by (simp only: set_empty not_False_eq_True)
      then show ?thesis using v True x' by (simp add: eq)
    next
      case False
      then show ?thesis using v m by (simp add: eq)
    qed
  qed
  have rm: "r \<noteq> [] \<and> m \<noteq> [] \<and> distinct m \<and> length m \<le> 2"
    if r: "rooms ?s' r = Some m" for r m
  proof (cases "r = roomId info")
    case True
    with r have "removeAll w room \<noteq> []" and "m = removeAll w room"
      by (auto simp: eq split: if_splits)
    moreover have "length (removeAll w room) \<le> 2"
      by (rule order_trans [OF length_removeAll_less_eq]) (use R in simp)
    moreover have "distinct (removeAll w room)"
      using R by (simp add: distinct_removeAll)
    ultimately show ?thesis using R True by simp
  next
    case False
    with r have "rooms s r = Some m" by (simp add: eq split: if_splits)
    from inv_room [OF assms this] show ?thesis .
  qed
  show ?thesis unfolding inv_def using assoc rm by blast
qed

lemma filter_set_add: "filter (\<lambda>x. x \<noteq> w) (set_add room w) = filter (\<lambda>x. x \<noteq> w) room"
  by (simp add: set_add_def)

lemma filter_set_add2:
  "filter (\<lambda>x. x \<noteq> w \<and> Q x) (set_add room w) = filter (\<lambda>x. x \<noteq> w \<and> Q x) room"
  by (simp add: set_add_def)

lemma userId_of_upd:
  "x \<noteq> w \<Longrightarrow> userId_of (s\<lparr>var_userId := a, var_roomId := b, rooms := c,
      peerByWs := (peerByWs s)(w \<mapsto> i)\<rparr>) x = userId_of s x"
  by (simp add: userId_of_def)

lemma map_userId_of_upd:
  "map (userId_of (s\<lparr>var_userId := a, var_roomId := b, rooms := c,
      peerByWs := (peerByWs s)(w \<mapsto> i)\<rparr>)) (filter (\<lambda>x. x \<noteq> w) room) =
   map (userId_of s) (filter (\<lambda>x. x \<noteq> w) room)"
  by (rule map_cong) (simp_all add: userId_of_upd)

lemma join_case_accept:
  assumes "requested_room (field msg ''roomId'') = Inr r" and "r \<noteq> []"
    and "length (members s r) < 2"
  shows "join_case nd w msg s =
     Inr (s\<lparr> var_userId := (var_userId s)(w := join_userId nd msg),
             var_roomId := (var_roomId s)(w := Some r),
             rooms := (rooms s)(r \<mapsto> set_add (members s r) w),
             peerByWs := (peerByWs s)(w \<mapsto> \<lparr>roomId = r, userId = join_userId nd msg\<rparr>),
             wire := wire s @
               (if readyState s w = 1
                then [(w, Joined r (join_userId nd msg)
                            (map (userId_of s) (filter (\<lambda>x. x \<noteq> w) (members s r))))]
                else []) @
               map (\<lambda>x. (x, Peer_joined r (join_userId nd msg)))
                 (filter (\<lambda>x. x \<noteq> w \<and> readyState s x = 1) (members s r)) \<rparr>)"
  using assms
  unfolding join_case_def Let_def broadcastToRoomExcept_eq members_def
  by (simp add: map_userId_of_upd filter_set_add filter_set_add2)

lemma join_case_full:
  assumes "requested_room (field msg ''roomId'') = Inr r" and "r \<noteq> []"
    and "2 \<le> length (members s r)"
  shows "join_case nd w msg s = Inr (send w (Error ''Room is full (max 2 participants)'') s)"
  using assms by (simp add: join_case_def Let_def members_def)

lemma join_case_empty:
  assumes "requested_room (field msg ''roomId'') = Inr []"
  shows "join_case nd w msg s = Inr (send w (Error ''Room ID required'') s)"
  using assms by (simp add: join_case_def)

lemma join_case_throw:
  assumes "requested_room (field msg ''roomId'') = Inl e"
  shows "join_case nd w msg s = Inl e"
  using assms by (simp add: join_case_def)

lemma set_add_props:
  "distinct room \<Longrightarrow> distinct (set_add room w)"
  "set (set_add room w) = insert w (set room)"
  "set_add room w \<noteq> []"
  "length (set_add room w) \<le> Suc (length room)"
  by (auto simp: set_add_def)

lemma members_props:
  assumes "inv s"
  shows "distinct (members s r)" and "length (members s r) \<le> 2"
  using inv_room [OF assms, of r] by (auto simp: members_def split: option.splits)

lemma inv_join_case:
  assumes "inv s" and j: "join_case nd w msg s = Inr s'"
  shows "inv s'"
proof (cases "requested_room (field msg ''roomId'')")
  case (Inl e)
  with j show ?thesis by (simp add: join_case_throw)
next
  case (Inr r)
  show ?thesis
  proof (cases "r = []")
    case True
    with Inr j assms show ?thesis by (auto simp: join_case_empty)
  next
    case False
    note r = this
    show ?thesis
    proof (cases "2 \<le> length (members s r)")
      case True
      from j assms show ?thesis by (auto simp: join_case_full [OF Inr r True])
    next
      case False
      then have lt: "length (members s r) < 2" by simp
      let ?room' = "set_add (members s r) w"
      let ?u = "join_userId nd msg"
      let ?t = "s\<lparr> var_userId := (var_userId s)(w := ?u),
             var_roomId := (var_roomId s)(w := Some r),
             rooms := (rooms s)(r \<mapsto> ?room'),
             peerByWs := (peerByWs s)(w \<mapsto> \<lparr>roomId = r, userId = ?u\<rparr>)\<rparr>"
      from j have "\<exists>x. s' = ?t\<lparr>wire := x\<rparr>"
        unfolding join_case_accept [OF Inr r lt] by auto
      moreover have "inv ?t"
      proof -
        have assoc: "var_roomId ?t x = Some (roomId i) \<and> var_userId ?t x = userId i \<and>
              (\<exists>m. rooms ?t (roomId i) = Some m \<and> x \<in> set m)"
          if x: "peerByWs ?t x = Some i" for x i
        proof (cases "x = w")
          case True
          with x show ?thesis by (auto simp: set_add_props)
        next
          case xw: False
          with x have xi: "peerByWs s x = Some i" by simp
          from inv_assoc [OF assms(1) xi] obtain m
            where v: "var_roomId s x = Some (roomId i)" "var_userId s x = userId i"
              and m: "rooms s (roomId i) = Some m" "x \<in> set m"
            by blast
          show ?thesis
          proof (cases "roomId i = r")
            case True
            with m have "members s r = m" by (simp add: members_def)
            with m have "x \<in> set ?room'" by (simp add: set_add_props)
            with v xw True show ?thesis by simp
          next
            case False
            with v m xw show ?thesis by simp
          qed
        qed
        have rm: "q \<noteq> [] \<and> m \<noteq> [] \<and> distinct m \<and> length m \<le> 2"
          if q: "rooms ?t q = Some m" for q m
        proof (cases "q = r")
          case True
          with q have "m = ?room'" by simp
          moreover have "length ?room' \<le> 2"
            using set_add_props(4) [of "members s r" w] lt by linarith
          ultimately show ?thesis
            using r True members_props(1) [OF assms(1), of r] by (simp add: set_add_props)
        next
          case False
          with q have "rooms s q = Some m" by simp
          from inv_room [OF assms(1) this] show ?thesis .
        qed
        show ?thesis unfolding inv_def using assoc rm by blast
      qed
      ultimately show ?thesis by auto
    qed
  qed
qed

lemma relay_case_result:
  "relay_case t w msg s = Inr s' \<Longrightarrow> s' = s \<or> (\<exists>x p. s' = send x p s)"
  unfolding relay_case_def Let_def
  by (simp split: option.splits if_splits) blast+

lemma inv_relay_case: "inv s \<Longrightarrow> relay_case t w msg s = Inr s' \<Longrightarrow> inv s'"
  by (drule relay_case_result) auto

lemma inv_on_message:
  assumes "inv s" and m: "on_message nd w parsed s = Inr s'"
  shows "inv s'"
proof (cases parsed)
  case None
  with m assms show ?thesis by (auto simp: on_message_def)
next
  case (Some msg)
  from m have
    "join_case nd w msg s = Inr s' \<or> relay_case ''offer'' w msg s = Inr s' \<or>
     relay_case ''answer'' w msg s = Inr s' \<or> relay_case ''ice-candidate'' w msg s = Inr s' \<or>
     s' = leaveRoom w s \<or> s' = send w (Error ''Unknown message type'') s"
    unfolding on_message_def Let_def Some option.case
    by (simp split: if_splits)
  then show ?thesis
  proof (elim disjE)
    assume "join_case nd w msg s = Inr s'"
    then show ?thesis by (rule inv_join_case [OF assms(1)])
  next
    assume "relay_case ''offer'' w msg s = Inr s'"
    then show ?thesis by (rule inv_relay_case [OF assms(1)])
  next
    assume "relay_case ''answer'' w msg s = Inr s'"
    then show ?thesis by (rule inv_relay_case [OF assms(1)])
  next
    assume "relay_case ''ice-candidate'' w msg s = Inr s'"
    then show ?thesis by (rule inv_relay_case [OF assms(1)])
  next
    assume "s' = leaveRoom w s"
    then show ?thesis by (simp add: inv_leaveRoom [OF assms(1)])
  next
    assume "s' = send w (Error ''Unknown message type'') s"
    then show ?thesis by (simp add: assms(1))
  qed
qed

lemma inv_step:
  assumes "inv s" and "step s e = Inr s'"
  shows "inv s'"
proof (cases e)
  case (Message w parsed nd)
  with assms(2) have "on_message nd w parsed s = Inr s'" by simp
  then show ?thesis by (rule inv_on_message [OF assms(1)])
next
  case (Close w)
  with assms show ?thesis by (auto simp: on_close_def inv_leaveRoom)
next
  case (Transport w n)
  with assms show ?thesis by auto
qed

lemma inv_run: "inv s \<Longrightarrow> run s es = Inr s' \<Longrightarrow> inv s'"
proof (induction es arbitrary: s)
  case Nil
  then show ?case by simp
next
  case (Cons e es)
  from Cons.prems(2) obtain t where t: "step s e = Inr t" and r: "run t es = Inr s'"
    by (auto split: sum.splits)
  from Cons.IH [OF inv_step [OF Cons.prems(1) t] r] show ?case .
qed

lemma inv_reachable: "run init es = Inr s \<Longrightarrow> inv s"
  by (rule inv_run [OF inv_init])

lemma field_JStr_not_null: "field msg k = JStr t \<Longrightarrow> msg \<noteq> JNull \<and> msg \<noteq> JUndefined"
  by auto

lemma on_message_join:
  "field msg ''type'' = JStr ''join'' \<Longrightarrow> on_message nd w (Some msg) s = join_case nd w msg s"
  by (frule field_JStr_not_null) (simp add: on_message_def)

lemma on_message_leave:
  "field msg ''type'' = JStr ''leave'' \<Longrightarrow> on_message nd w (Some msg) s = Inr (leaveRoom w s)"
  by (frule field_JStr_not_null) (simp add: on_message_def)

lemma on_message_relay:
  "field msg ''type'' = JStr t \<Longrightarrow> t \<in> {''offer'', ''answer'', ''ice-candidate''} \<Longrightarrow>
   on_message nd w (Some msg) s = relay_case t w msg s"
  by (frule field_JStr_not_null) (auto simp: on_message_def)

lemma run_append:
  "run s (es @ es') = (case run s es of Inl x \<Rightarrow> Inl x | Inr s' \<Rightarrow> run s' es')"
  by (induction es arbitrary: s) (auto split: sum.splits)

text \<open>Facts for evaluating the server on the example messages.\<close>

lemma requested_room_examples:
  "requested_room (JStr ''Room1 '') = Inr ''room1''"
  "requested_room (JStr ''room1'') = Inr ''room1''"
  "requested_room (JStr '' ROOM1'') = Inr ''room1''"
  "requested_room (JStr ''lobby'') = Inr ''lobby''"
  by code_simp+

lemmas eval_defs = init_def on_message_def join_case_def relay_case_def leaveRoom_def on_close_def
  requested_room_examples set_add_def set_delete_def send_def broadcastToRoomExcept_def
  broadcastToRoom_def userId_of_def join_userId_def strict_equals_def members_def Let_def
  msg_join_def msg_join_as_def msg_leave_def msg_offer_def

lemma strict_equals_eq: "strict_equals a b \<Longrightarrow> a = b"
  by (cases a) (simp_all add: strict_equals_def)

lemma two_members:
  assumes "distinct room" and "length room \<le> 2" and "w \<in> set room" and "x \<in> set room"
    and "x \<noteq> w"
  shows "room = [w, x] \<or> room = [x, w]"
proof (cases room)
  case Nil
  with assms show ?thesis by simp
next
  case (Cons a as)
  note outer = this
  show ?thesis
  proof (cases as)
    case Nil
    with outer assms show ?thesis by auto
  next
    case (Cons b bs)
    with outer assms have "bs = []" by simp
    with outer Cons assms show ?thesis by auto
  qed
qed

lemma joined_room:
  assumes "run init evs = Inr s" and "peerByWs s w = Some info"
  shows "var_roomId s w = Some (roomId info)" and "var_userId s w = userId info"
    and "roomId info \<noteq> []"
    and "\<exists>room. rooms s (roomId info) = Some room \<and> w \<in> set room \<and> distinct room \<and>
           length room \<le> 2"
proof -
  note I = inv_reachable [OF assms(1)]
  from inv_assoc [OF I assms(2)] obtain room
    where a: "var_roomId s w = Some (roomId info)" "var_userId s w = userId info"
      and r: "rooms s (roomId info) = Some room" "w \<in> set room"
    by blast
  note R = inv_room [OF I r(1)]
  show "var_roomId s w = Some (roomId info)" and "var_userId s w = userId info"
    by (rule a)+
  show "roomId info \<noteq> []" using R by simp
  show "\<exists>room. rooms s (roomId info) = Some room \<and> w \<in> set room \<and> distinct room \<and>
           length room \<le> 2"
    using r R by blast
qed

lemma leaveRoom_readyState [simp]: "readyState (leaveRoom w s) = readyState s"
  by (auto simp: leaveRoom_def Let_def broadcastToRoom_eq split: option.splits)

text \<open>Without a \<^verbatim>\<open>join\<close> on a connection that has an entry, \<open>one_room\<close> holds after every run.\<close>

lemma one_roomD:
  "one_room s \<Longrightarrow> rooms s r = Some room \<Longrightarrow> w \<in> set room \<Longrightarrow>
     \<exists>info. peerByWs s w = Some info \<and> roomId info = r"
  unfolding one_room_def by blast

lemma one_room_wire [simp]: "one_room (s\<lparr>wire := x\<rparr>) = one_room s"
  by (simp add: one_room_def)

lemma one_room_send [simp]: "one_room (send w p s) = one_room s"
  by (simp add: send_def)

lemma one_room_readyState [simp]: "one_room (s\<lparr>readyState := x\<rparr>) = one_room s"
  by (simp add: one_room_def)

lemma one_room_init: "one_room init"
  by (simp add: one_room_def init_def)

lemma one_room_leaveRoom:
  assumes "one_room s"
  shows "one_room (leaveRoom w s)"
proof (cases "peerByWs s w")
  case None
  then show ?thesis using assms by (simp add: leaveRoom_None)
next
  case (Some info)
  let ?s' = "leaveRoom w s"
  have "\<exists>i. peerByWs ?s' x = Some i \<and> roomId i = q"
    if q: "rooms ?s' q = Some m" and x: "x \<in> set m" for q m x
  proof (cases "rooms s (roomId info)")
    case None
    with q have q': "rooms s q = Some m" by (simp add: leaveRoom_no_room [OF Some None])
    from one_roomD [OF assms q' x] obtain i where i: "peerByWs s x = Some i" "roomId i = q"
      by blast
    with Some None q' have "x \<noteq> w" by auto
    with i show ?thesis by (simp add: leaveRoom_peerByWs)
  next
    case (Some room)
    note room = this
    note eq = leaveRoom_Some [OF \<open>peerByWs s w = Some info\<close> room]
    show ?thesis
    proof (cases "q = roomId info")
      case True
      with q have "m = removeAll w room"
        by (auto simp: eq split: if_splits)
      with x have xw: "x \<noteq> w" and xr: "x \<in> set room" by auto
      from one_roomD [OF assms room xr] xw True show ?thesis
        by (simp add: leaveRoom_peerByWs)
    next
      case False
      with q have q': "rooms s q = Some m" by (auto simp: eq split: if_splits)
      from one_roomD [OF assms q' x] obtain i where i: "peerByWs s x = Some i" "roomId i = q"
        by blast
      with \<open>peerByWs s w = Some info\<close> False have "x \<noteq> w" by auto
      with i show ?thesis by (simp add: leaveRoom_peerByWs)
    qed
  qed
  then show ?thesis unfolding one_room_def by blast
qed

lemma one_room_join_case:
  assumes "one_room s" and "peerByWs s w = None" and j: "join_case nd w msg s = Inr s'"
  shows "one_room s'"
proof (cases "requested_room (field msg ''roomId'')")
  case (Inl e)
  with j show ?thesis by (simp add: join_case_throw)
next
  case (Inr r)
  show ?thesis
  proof (cases "r = []")
    case True
    with Inr j assms show ?thesis by (auto simp: join_case_empty)
  next
    case False
    note r = this
    show ?thesis
    proof (cases "2 \<le> length (members s r)")
      case True
      from j assms show ?thesis by (auto simp: join_case_full [OF Inr r True])
    next
      case False
      then have lt: "length (members s r) < 2" by simp
      let ?u = "join_userId nd msg"
      let ?t = "s\<lparr> var_userId := (var_userId s)(w := ?u),
             var_roomId := (var_roomId s)(w := Some r),
             rooms := (rooms s)(r \<mapsto> set_add (members s r) w),
             peerByWs := (peerByWs s)(w \<mapsto> \<lparr>roomId = r, userId = ?u\<rparr>)\<rparr>"
      from j have "\<exists>x. s' = ?t\<lparr>wire := x\<rparr>"
        unfolding join_case_accept [OF Inr r lt] by auto
      moreover have "one_room ?t"
      proof -
        have "\<exists>i. peerByWs ?t x = Some i \<and> roomId i = q"
          if q: "rooms ?t q = Some m" and x: "x \<in> set m" for q m x
        proof (cases "x = w")
          case True
          show ?thesis
          proof (cases "q = r")
            case True
            with \<open>x = w\<close> show ?thesis by simp
          next
            case False
            with q have "rooms s q = Some m" by simp
            from one_roomD [OF assms(1) this x] True assms(2) show ?thesis by simp
          qed
        next
          case xw: False
          have "\<exists>room. rooms s q = Some room \<and> x \<in> set room"
          proof (cases "q = r")
            case True
            with q x xw have "x \<in> set (members s r)" by (auto simp: set_add_props)
            with True show ?thesis by (cases "rooms s r") (auto simp: members_def)
          next
            case False
            with q x show ?thesis by simp
          qed
          then obtain room where "rooms s q = Some room" "x \<in> set room" by blast
          from one_roomD [OF assms(1) this] xw show ?thesis by simp
        qed
        then show ?thesis unfolding one_room_def by blast
      qed
      ultimately show ?thesis by auto
    qed
  qed
qed

lemma one_room_relay_case: "one_room s \<Longrightarrow> relay_case t w msg s = Inr s' \<Longrightarrow> one_room s'"
  by (drule relay_case_result) auto

lemma one_room_step:
  assumes "one_room s" and "\<not> rejoin s e" and st: "step s e = Inr s'"
  shows "one_room s'"
proof (cases e)
  case (Message w parsed nd)
  show ?thesis
  proof (cases parsed)
    case None
    with Message st assms(1) show ?thesis by (auto simp: on_message_def)
  next
    case (Some msg)
    from st Message Some have om: "on_message nd w (Some msg) s = Inr s'" by simp
    then have
      "(field msg ''type'' = JStr ''join'' \<and> join_case nd w msg s = Inr s') \<or>
       relay_case ''offer'' w msg s = Inr s' \<or>
       relay_case ''answer'' w msg s = Inr s' \<or> relay_case ''ice-candidate'' w msg s = Inr s' \<or>
       s' = leaveRoom w s \<or> s' = send w (Error ''Unknown message type'') s"
      unfolding on_message_def Let_def option.case
      by (simp split: if_splits)
    then show ?thesis
    proof (elim disjE conjE)
      assume t: "field msg ''type'' = JStr ''join''" and j: "join_case nd w msg s = Inr s'"
      from assms(2) Message Some t have "peerByWs s w = None" by simp
      from one_room_join_case [OF assms(1) this j] show ?thesis .
    next
      assume "relay_case ''offer'' w msg s = Inr s'"
      then show ?thesis by (rule one_room_relay_case [OF assms(1)])
    next
      assume "relay_case ''answer'' w msg s = Inr s'"
      then show ?thesis by (rule one_room_relay_case [OF assms(1)])
    next
      assume "relay_case ''ice-candidate'' w msg s = Inr s'"
      then show ?thesis by (rule one_room_relay_case [OF assms(1)])
    next
      assume "s' = leaveRoom w s"
      then show ?thesis by (simp add: one_room_leaveRoom [OF assms(1)])
    next
      assume "s' = send w (Error ''Unknown message type'') s"
      then show ?thesis by (simp add: assms(1))
    qed
  qed
next
  case (Close w)
  with assms show ?thesis by (auto simp: on_close_def one_room_leaveRoom)
next
  case (Transport w n)
  with assms show ?thesis by auto
qed

lemma one_room_run:
  "one_room s \<Longrightarrow> no_rejoin s es \<Longrightarrow> run s es = Inr s' \<Longrightarrow> one_room s'"
proof (induction es arbitrary: s)
  case Nil
  then show ?case by simp
next
  case (Cons e es)
  from Cons.prems(3) obtain t where t: "step s e = Inr t" and r: "run t es = Inr s'"
    by (auto split: sum.splits)
  from Cons.prems(2) t have n: "\<not> rejoin s e" and n': "no_rejoin t es" by simp_all
  from Cons.IH [OF one_room_step [OF Cons.prems(1) n t] n' r] show ?case .
qed

section \<open>The claims\<close>

text \<open>
  C1. After every run from the initial state, a room has at most 2 members. A \<^verbatim>\<open>join\<close>
  for a room that has 2 members changes neither registry nor any closure variable: the
  state is the same but for the error \<^verbatim>\<open>Room is full (max 2 participants)\<close>, which goes
  to the joining connection (\<^verbatim>\<open>send\<close> writes to an open connection only).
\<close>

theorem room_capacity:
  assumes "run init evs = Inr s" and "rooms s r = Some room"
  shows "length room \<le> 2 \<and>
     (length room = 2 \<and> field msg ''type'' = JStr ''join'' \<and>
      requested_room (field msg ''roomId'') = Inr r \<longrightarrow>
        on_message nd w (Some msg) s =
          Inr (if readyState s w = 1
               then s\<lparr>wire := wire s @ [(w, Error ''Room is full (max 2 participants)'')]\<rparr>
               else s))"
proof -
  note R = inv_room [OF inv_reachable [OF assms(1)] assms(2)]
  have "on_message nd w (Some msg) s =
          Inr (if readyState s w = 1
               then s\<lparr>wire := wire s @ [(w, Error ''Room is full (max 2 participants)'')]\<rparr>
               else s)"
    if "length room = 2" and j: "field msg ''type'' = JStr ''join''"
      and rr: "requested_room (field msg ''roomId'') = Inr r"
  proof -
    from that assms(2) have "2 \<le> length (members s r)" by (simp add: members_def)
    with R show ?thesis
      by (simp add: on_message_join [OF j] join_case_full [OF rr] send_def)
  qed
  with R show ?thesis by blast
qed

theorem room_capacity_witness:
  "\<not> isl (run init [Message 0 (Some (msg_join_as ''Room1 '' ''alice'')) clock,
                     Message 1 (Some (msg_join ''room1'')) clock]) \<and>
   rooms (projr (run init [Message 0 (Some (msg_join_as ''Room1 '' ''alice'')) clock,
                     Message 1 (Some (msg_join ''room1'')) clock])) ''room1'' = Some [0, 1] \<and>
   length [0, 1 :: ws] = 2 \<and>
   wire (projr (on_message clock 2 (Some (msg_join '' ROOM1''))
     (projr (run init [Message 0 (Some (msg_join_as ''Room1 '' ''alice'')) clock,
                     Message 1 (Some (msg_join ''room1'')) clock])))) =
   wire (projr (run init [Message 0 (Some (msg_join_as ''Room1 '' ''alice'')) clock,
                     Message 1 (Some (msg_join ''room1'')) clock])) @
     [(2, Error ''Room is full (max 2 participants)'')]"
proof -
  let ?evs = "[Message 0 (Some (msg_join_as ''Room1 '' ''alice'')) clock,
               Message 1 (Some (msg_join ''room1'')) clock]"
  obtain s where s: "run init ?evs = Inr s"
    by (simp add: eval_defs)
  have r: "rooms s ''room1'' = Some [0, 1]" and o: "readyState s 2 = 1"
    using s by (auto simp: eval_defs)
  have m: "field (msg_join '' ROOM1'') ''type'' = JStr ''join''"
    "requested_room (field (msg_join '' ROOM1'') ''roomId'') = Inr ''room1''"
    by (simp_all add: msg_join_def requested_room_examples)
  from room_capacity [OF s r, of "msg_join '' ROOM1''" clock 2] m o
  show ?thesis unfolding s by (simp add: r)
qed

text \<open>
  C9. Teardown is idempotent: a second \<open>leaveRoom\<close> on a connection leaves the state, and so
  the registries and the messages sent, as the first one left them; so does the close of
  the transport after a \<^verbatim>\<open>leave\<close> message, after any history \<open>es\<close>.
\<close>

theorem teardown_idempotent:
  "leaveRoom w (leaveRoom w s) = leaveRoom w s \<and>
   on_close w (leaveRoom w s) = leaveRoom w s \<and>
   (field lm ''type'' = JStr ''leave'' \<longrightarrow>
      run s (es @ [Message w (Some lm) nd, Close w]) = run s (es @ [Message w (Some lm) nd]))"
  by (simp add: run_append on_message_leave on_close_def leaveRoom_idem split: sum.splits)

theorem teardown_idempotent_witness:
  "field msg_leave ''type'' = JStr ''leave'' \<and>
   run init [Message 0 (Some (msg_join_as ''Room1 '' ''alice'')) clock,
             Message 1 (Some (msg_join_as ''room1'' ''bob'')) clock,
             Message 0 (Some msg_leave) clock, Close 0] =
   run init [Message 0 (Some (msg_join_as ''Room1 '' ''alice'')) clock,
             Message 1 (Some (msg_join_as ''room1'' ''bob'')) clock,
             Message 0 (Some msg_leave) clock] \<and>
   wire (projr (run init [Message 0 (Some (msg_join_as ''Room1 '' ''alice'')) clock,
             Message 1 (Some (msg_join_as ''room1'' ''bob'')) clock,
             Message 0 (Some msg_leave) clock, Close 0])) =
     [(0, Joined ''room1'' (JStr ''alice'') []),
      (1, Joined ''room1'' (JStr ''bob'') [JStr ''alice'']),
      (0, Peer_joined ''room1'' (JStr ''bob'')),
      (1, Peer_left (JStr ''alice''))]"
  using teardown_idempotent [of 0 init msg_leave
      "[Message 0 (Some (msg_join_as ''Room1 '' ''alice'')) clock,
        Message 1 (Some (msg_join_as ''room1'' ''bob'')) clock]" clock]
  by (simp add: eval_defs)

text \<open>
  C2. A participant \<open>w\<close> that has joined (it has an entry in \<open>peerByWs\<close>) sends an
  \<^verbatim>\<open>offer\<close>, \<^verbatim>\<open>answer\<close> or \<^verbatim>\<open>ice-candidate\<close>, and its room has another member \<open>x\<close>,
  open, whose participant id is \<^verbatim>\<open>===\<close> the message's \<^verbatim>\<open>to\<close>. Then exactly one message is
  sent, to \<open>x\<close>: it has the type of the inbound message, \<^verbatim>\<open>from\<close> is the sender's
  participant id, \<^verbatim>\<open>to\<close> is the target's id, and \<^verbatim>\<open>sdp\<close> and \<^verbatim>\<open>candidate\<close> are those of
  the inbound message. Nothing else of the state changes.
\<close>

theorem relay_to_target:
  assumes "run init evs = Inr s"
    and "peerByWs s w = Some info"
    and "rooms s (roomId info) = Some room"
    and "x \<in> set room" and "x \<noteq> w" and "readyState s x = 1"
    and "strict_equals (userId_of s x) (field msg ''to'')"
    and "field msg ''type'' = JStr t" and "t \<in> {''offer'', ''answer'', ''ice-candidate''}"
  shows "on_message nd w (Some msg) s =
     Inr (s\<lparr>wire := wire s @
            [(x, Relay t (userId info) (userId_of s x)
                   (field msg ''sdp'') (field msg ''candidate''))]\<rparr>)"
proof -
  note J = joined_room [OF assms(1,2)]
  from J(4) assms(3) have w: "w \<in> set room" and d: "distinct room" and l: "length room \<le> 2"
    by auto
  let ?P = "\<lambda>y. y \<noteq> w \<and> strict_equals (userId_of s y) (field msg ''to'')"
  from two_members [OF d l w assms(4,5)] assms(5,7) have f: "find ?P room = Some x"
    by auto
  have eq: "field msg ''to'' = userId_of s x"
    using strict_equals_eq [OF assms(7)] by simp
  show ?thesis
    unfolding on_message_relay [OF assms(8,9)] relay_case_def Let_def
    using J(1,2,3) assms(3,6) f by (simp add: send_def eq)
qed

theorem relay_to_target_witness:
  "\<not> isl (run init [Message 0 (Some (msg_join_as ''Room1 '' ''alice'')) clock,
                     Message 1 (Some (msg_join_as ''room1'' ''bob'')) clock]) \<and>
   wire (projr (on_message clock 1 (Some (msg_offer ''alice'' (JStr ''v=0'')))
     (projr (run init [Message 0 (Some (msg_join_as ''Room1 '' ''alice'')) clock,
                       Message 1 (Some (msg_join_as ''room1'' ''bob'')) clock])))) =
     [(0, Joined ''room1'' (JStr ''alice'') []),
      (1, Joined ''room1'' (JStr ''bob'') [JStr ''alice'']),
      (0, Peer_joined ''room1'' (JStr ''bob'')),
      (0, Relay ''offer'' (JStr ''bob'') (JStr ''alice'') (JStr ''v=0'') JUndefined)]"
proof -
  let ?evs = "[Message 0 (Some (msg_join_as ''Room1 '' ''alice'')) clock,
               Message 1 (Some (msg_join_as ''room1'' ''bob'')) clock]"
  let ?m = "msg_offer ''alice'' (JStr ''v=0'')"
  obtain s where s: "run init ?evs = Inr s"
    by (simp add: eval_defs)
  have p: "peerByWs s 1 = Some \<lparr>roomId = ''room1'', userId = JStr ''bob''\<rparr>"
    and r: "rooms s (roomId \<lparr>roomId = ''room1'', userId = JStr ''bob''\<rparr>) = Some [0, 1]"
    and o: "readyState s 0 = 1"
    and u: "userId_of s 0 = JStr ''alice''"
    and w: "wire s = [(0, Joined ''room1'' (JStr ''alice'') []),
      (1, Joined ''room1'' (JStr ''bob'') [JStr ''alice'']),
      (0, Peer_joined ''room1'' (JStr ''bob''))]"
    using s by (auto simp: eval_defs)
  have m: "strict_equals (userId_of s 0) (field ?m ''to'')"
    "field ?m ''type'' = JStr ''offer''"
    by (simp_all add: u msg_offer_def strict_equals_def)
  from relay_to_target [OF s p r _ _ o m(1) m(2), of clock] u w
  show ?thesis unfolding s by (simp add: msg_offer_def)
qed

text \<open>
  C3. A participant \<open>w\<close> that has joined sends an \<^verbatim>\<open>offer\<close>, \<^verbatim>\<open>answer\<close> or
  \<^verbatim>\<open>ice-candidate\<close>, and its room has no other member that is open and whose participant
  id is \<^verbatim>\<open>===\<close> the message's \<^verbatim>\<open>to\<close>. Then the only message sent is the error
  \<^verbatim>\<open>Peer not found or disconnected\<close>, to the sender (when the sender is open), and
  nothing else of the state changes.
\<close>

theorem peer_not_found:
  assumes "run init evs = Inr s"
    and "peerByWs s w = Some info"
    and "rooms s (roomId info) = Some room"
    and "\<forall>x \<in> set room. x \<noteq> w \<and> readyState s x = 1 \<longrightarrow>
           \<not> strict_equals (userId_of s x) (field msg ''to'')"
    and "field msg ''type'' = JStr t" and "t \<in> {''offer'', ''answer'', ''ice-candidate''}"
  shows "on_message nd w (Some msg) s =
     Inr (if readyState s w = 1
          then s\<lparr>wire := wire s @ [(w, Error ''Peer not found or disconnected'')]\<rparr>
          else s)"
proof -
  note J = joined_room [OF assms(1,2)]
  let ?P = "\<lambda>y. y \<noteq> w \<and> strict_equals (userId_of s y) (field msg ''to'')"
  have closed: "readyState s y \<noteq> 1" if "find ?P room = Some y" for y
  proof -
    from that have "y \<in> set room" and "?P y"
      by (auto simp: find_Some_iff)
    with assms(4) show ?thesis by blast
  qed
  show ?thesis
  proof (cases "find ?P room")
    case None
    then show ?thesis
      unfolding on_message_relay [OF assms(5,6)] relay_case_def Let_def
      using J(1,3) assms(3) by (simp add: send_def)
  next
    case (Some y)
    with closed [OF Some] show ?thesis
      unfolding on_message_relay [OF assms(5,6)] relay_case_def Let_def
      using J(1,3) assms(3) by (simp add: send_def)
  qed
qed

theorem peer_not_found_witness:
  "\<not> isl (run init [Message 0 (Some (msg_join_as ''Room1 '' ''alice'')) clock,
                     Message 1 (Some (msg_join_as ''room1'' ''bob'')) clock]) \<and>
   wire (projr (on_message clock 1 (Some (msg_offer ''carol'' (JStr ''v=0'')))
     (projr (run init [Message 0 (Some (msg_join_as ''Room1 '' ''alice'')) clock,
                       Message 1 (Some (msg_join_as ''room1'' ''bob'')) clock])))) =
     [(0, Joined ''room1'' (JStr ''alice'') []),
      (1, Joined ''room1'' (JStr ''bob'') [JStr ''alice'']),
      (0, Peer_joined ''room1'' (JStr ''bob'')),
      (1, Error ''Peer not found or disconnected'')]"
proof -
  let ?evs = "[Message 0 (Some (msg_join_as ''Room1 '' ''alice'')) clock,
               Message 1 (Some (msg_join_as ''room1'' ''bob'')) clock]"
  let ?m = "msg_offer ''carol'' (JStr ''v=0'')"
  obtain s where s: "run init ?evs = Inr s"
    by (simp add: eval_defs)
  have p: "peerByWs s 1 = Some \<lparr>roomId = ''room1'', userId = JStr ''bob''\<rparr>"
    and r: "rooms s (roomId \<lparr>roomId = ''room1'', userId = JStr ''bob''\<rparr>) = Some [0, 1]"
    and o: "readyState s 1 = 1"
    and u: "userId_of s 0 = JStr ''alice''"
    and w: "wire s = [(0, Joined ''room1'' (JStr ''alice'') []),
      (1, Joined ''room1'' (JStr ''bob'') [JStr ''alice'']),
      (0, Peer_joined ''room1'' (JStr ''bob''))]"
    using s by (auto simp: eval_defs)
  have n: "\<forall>x \<in> set [0, 1]. x \<noteq> 1 \<and> readyState s x = 1 \<longrightarrow>
           \<not> strict_equals (userId_of s x) (field ?m ''to'')"
    by (simp add: u msg_offer_def strict_equals_def)
  have m: "field ?m ''type'' = JStr ''offer''"
    by (simp add: msg_offer_def)
  from peer_not_found [OF s p r n m, of clock] o w
  show ?thesis unfolding s by simp
qed

text \<open>
  C8. Two participants \<open>a\<close> and \<open>b\<close> have joined the same room and \<open>a\<close>'s transport
  closes. Then the only message sent is one \<^verbatim>\<open>peer-left\<close> to \<open>b\<close> (when \<open>b\<close> is open) with
  \<open>a\<close>'s participant id; nothing is sent to \<open>a\<close>, whose entry is removed, and \<open>b\<close> is
  left alone in the room.
\<close>

theorem peer_left_on_disconnect:
  assumes "run init evs = Inr s"
    and "peerByWs s a = Some ia" and "peerByWs s b = Some ib"
    and "a \<noteq> b" and "roomId ia = roomId ib"
  shows "on_close a s =
     s\<lparr>peerByWs := (peerByWs s)(a := None),
       rooms := (rooms s)(roomId ia \<mapsto> [b]),
       wire := wire s @ (if readyState s b = 1 then [(b, Peer_left (userId ia))] else [])\<rparr>"
proof -
  from joined_room(4) [OF assms(1,2)] obtain room
    where r: "rooms s (roomId ia) = Some room" "a \<in> set room" "distinct room" "length room \<le> 2"
    by blast
  from joined_room(4) [OF assms(1,3)] assms(5) r(1) have b: "b \<in> set room"
    by auto
  from two_members [OF r(3,4,2) b] assms(4) have "room = [a, b] \<or> room = [b, a]"
    by auto
  with assms(4) have rem: "removeAll a room = [b]" by auto
  show ?thesis
    unfolding on_close_def leaveRoom_Some [OF assms(2) r(1)] rem
    by simp
qed

theorem peer_left_on_disconnect_witness:
  "\<not> isl (run init [Message 0 (Some (msg_join_as ''Room1 '' ''alice'')) clock,
                     Message 1 (Some (msg_join_as ''room1'' ''bob'')) clock]) \<and>
   wire (on_close 0
     (projr (run init [Message 0 (Some (msg_join_as ''Room1 '' ''alice'')) clock,
                       Message 1 (Some (msg_join_as ''room1'' ''bob'')) clock]))) =
     [(0, Joined ''room1'' (JStr ''alice'') []),
      (1, Joined ''room1'' (JStr ''bob'') [JStr ''alice'']),
      (0, Peer_joined ''room1'' (JStr ''bob'')),
      (1, Peer_left (JStr ''alice''))]"
proof -
  let ?evs = "[Message 0 (Some (msg_join_as ''Room1 '' ''alice'')) clock,
               Message 1 (Some (msg_join_as ''room1'' ''bob'')) clock]"
  obtain s where s: "run init ?evs = Inr s"
    by (simp add: eval_defs)
  have a: "peerByWs s 0 = Some \<lparr>roomId = ''room1'', userId = JStr ''alice''\<rparr>"
    and b: "peerByWs s 1 = Some \<lparr>roomId = ''room1'', userId = JStr ''bob''\<rparr>"
    and o: "readyState s 1 = 1"
    and w: "wire s = [(0, Joined ''room1'' (JStr ''alice'') []),
      (1, Joined ''room1'' (JStr ''bob'') [JStr ''alice'']),
      (0, Peer_joined ''room1'' (JStr ''bob''))]"
    using s by (auto simp: eval_defs)
  from peer_left_on_disconnect [OF s a b] o w
  show ?thesis unfolding s by simp
qed

text \<open>
  C4. The room \<open>r\<close> has no entry; \<open>a\<close> joins it and then \<open>b\<close> does, both open. The messages
  sent by the two steps are, in this order: \<open>a\<close>'s own \<^verbatim>\<open>joined\<close> (no peers), \<open>b\<close>'s
  \<^verbatim>\<open>joined\<close> whose \<^verbatim>\<open>peers\<close> is the list of \<open>a\<close>'s participant id alone, and one
  \<^verbatim>\<open>peer-joined\<close> to \<open>a\<close> with \<open>b\<close>'s participant id. No other message is sent.
\<close>

theorem second_join_effects:
  assumes "rooms s r = None" and "r \<noteq> []" and "a \<noteq> b"
    and "readyState s a = 1" and "readyState s b = 1"
    and "field ma ''type'' = JStr ''join''" and "requested_room (field ma ''roomId'') = Inr r"
    and "field mb ''type'' = JStr ''join''" and "requested_room (field mb ''roomId'') = Inr r"
  shows "\<exists>s'. run s [Message a (Some ma) nda, Message b (Some mb) ndb] = Inr s' \<and>
     wire s' = wire s @
       [(a, Joined r (join_userId nda ma) []),
        (b, Joined r (join_userId ndb mb) [join_userId nda ma]),
        (a, Peer_joined r (join_userId ndb mb))] \<and>
     rooms s' r = Some [a, b]"
proof -
  let ?s1 = "s\<lparr> var_userId := (var_userId s)(a := join_userId nda ma),
             var_roomId := (var_roomId s)(a := Some r),
             rooms := (rooms s)(r \<mapsto> [a]),
             peerByWs := (peerByWs s)(a \<mapsto> \<lparr>roomId = r, userId = join_userId nda ma\<rparr>),
             wire := wire s @ [(a, Joined r (join_userId nda ma) [])] \<rparr>"
  from assms(1) have m0: "members s r = []" by (simp add: members_def)
  then have l0: "length (members s r) < 2" by simp
  have 1: "on_message nda a (Some ma) s = Inr ?s1"
    unfolding on_message_join [OF assms(6)] join_case_accept [OF assms(7,2) l0]
    using assms(4) by (simp add: m0 set_add_def)
  have m1: "members ?s1 r = [a]" by (simp add: members_def)
  then have l1: "length (members ?s1 r) < 2" by simp
  have u: "userId_of ?s1 a = join_userId nda ma" by (simp add: userId_of_def)
  show ?thesis
    using assms(3,4,5)
    by (simp add: 1 on_message_join [OF assms(8)] join_case_accept [OF assms(9,2) l1] m1 u
        set_add_def)
qed

theorem second_join_effects_witness:
  "\<not> isl (run init [Message 0 (Some (msg_join_as ''Room1 '' ''alice'')) clock,
                     Message 1 (Some (msg_join '' ROOM1'')) clock]) \<and>
   wire (projr (run init [Message 0 (Some (msg_join_as ''Room1 '' ''alice'')) clock,
                          Message 1 (Some (msg_join '' ROOM1'')) clock])) =
     [(0, Joined ''room1'' (JStr ''alice'') []),
      (1, Joined ''room1'' (JStr (generated clock)) [JStr ''alice'']),
      (0, Peer_joined ''room1'' (JStr (generated clock)))] \<and>
   rooms (projr (run init [Message 0 (Some (msg_join_as ''Room1 '' ''alice'')) clock,
                          Message 1 (Some (msg_join '' ROOM1'')) clock])) ''room1'' = Some [0, 1]"
proof -
  have h: "rooms init ''room1'' = None" "''room1'' \<noteq> []" "(0::ws) \<noteq> 1"
    "readyState init 0 = 1" "readyState init 1 = 1"
    "field (msg_join_as ''Room1 '' ''alice'') ''type'' = JStr ''join''"
    "requested_room (field (msg_join_as ''Room1 '' ''alice'') ''roomId'') = Inr ''room1''"
    "field (msg_join '' ROOM1'') ''type'' = JStr ''join''"
    "requested_room (field (msg_join '' ROOM1'') ''roomId'') = Inr ''room1''"
    by (simp_all add: init_def msg_join_def msg_join_as_def requested_room_examples)
  from second_join_effects [OF h, of clock clock] obtain s'
    where s: "run init [Message 0 (Some (msg_join_as ''Room1 '' ''alice'')) clock,
                     Message 1 (Some (msg_join '' ROOM1'')) clock] = Inr s'"
      and w: "wire s' = wire init @
       [(0, Joined ''room1'' (join_userId clock (msg_join_as ''Room1 '' ''alice'')) []),
        (1, Joined ''room1'' (join_userId clock (msg_join '' ROOM1''))
              [join_userId clock (msg_join_as ''Room1 '' ''alice'')]),
        (0, Peer_joined ''room1'' (join_userId clock (msg_join '' ROOM1'')))]"
      and r: "rooms s' ''room1'' = Some [0, 1]"
    by blast
  show ?thesis unfolding s using w r
    by (simp add: init_def join_userId_def msg_join_def msg_join_as_def)
qed

text \<open>
  C7, as stated: a leave or disconnect by the last remaining member of a room removes the
  room's entry, and the next \<^verbatim>\<open>join\<close> with this room id gets no peers. \<open>leaveRoom\<close> takes
  the connection out of the room that its entry in \<open>peerByWs\<close> names, and out of no other.
  Connection 0 joins \<^verbatim>\<open>room1\<close> and then \<^verbatim>\<open>lobby\<close>: it is the only member of \<^verbatim>\<open>room1\<close>,
  and its entry names \<^verbatim>\<open>lobby\<close>. Its transport closes: \<^verbatim>\<open>lobby\<close> is removed, \<^verbatim>\<open>room1\<close>
  keeps it as a member, and connection 1, joining \<^verbatim>\<open>room1\<close>, is the second member and is
  sent a \<^verbatim>\<open>peers\<close> list of one \<^verbatim>\<open>undefined\<close>.
\<close>

theorem stale_member_close_counterexample:
  "\<not> isl (run init [Message 0 (Some (msg_join_as ''room1'' ''alice'')) clock,
                           Message 0 (Some (msg_join_as ''lobby'' ''alice2'')) clock,
                           Transport 0 3, Close 0,
                           Message 1 (Some (msg_join_as ''room1'' ''bob'')) clock]) \<and>
   rooms (projr (run init [Message 0 (Some (msg_join_as ''room1'' ''alice'')) clock,
                           Message 0 (Some (msg_join_as ''lobby'' ''alice2'')) clock]))
     ''room1'' = Some [0] \<and>
   rooms (projr (run init [Message 0 (Some (msg_join_as ''room1'' ''alice'')) clock,
                           Message 0 (Some (msg_join_as ''lobby'' ''alice2'')) clock,
                           Transport 0 3, Close 0]))
     ''room1'' = Some [0] \<and>
   rooms (projr (run init [Message 0 (Some (msg_join_as ''room1'' ''alice'')) clock,
                           Message 0 (Some (msg_join_as ''lobby'' ''alice2'')) clock,
                           Transport 0 3, Close 0]))
     ''lobby'' = None \<and>
   rooms (projr (run init [Message 0 (Some (msg_join_as ''room1'' ''alice'')) clock,
                           Message 0 (Some (msg_join_as ''lobby'' ''alice2'')) clock,
                           Transport 0 3, Close 0,
                           Message 1 (Some (msg_join_as ''room1'' ''bob'')) clock]))
     ''room1'' = Some [0, 1] \<and>
   wire (projr (run init [Message 0 (Some (msg_join_as ''room1'' ''alice'')) clock,
                           Message 0 (Some (msg_join_as ''lobby'' ''alice2'')) clock,
                           Transport 0 3, Close 0,
                           Message 1 (Some (msg_join_as ''room1'' ''bob'')) clock])) =
     [(0, Joined ''room1'' (JStr ''alice'') []),
      (0, Joined ''lobby'' (JStr ''alice2'') []),
      (1, Joined ''room1'' (JStr ''bob'') [JUndefined])]"
  by (simp add: eval_defs)

text \<open>
  C7, amended. The connection \<open>w\<close> has an entry in \<open>peerByWs\<close> that names the room \<open>r\<close>, and
  is the only member of \<open>r\<close>. Its \<^verbatim>\<open>leave\<close> message, or the close of its transport, removes
  the entry of \<open>r\<close> from \<open>rooms\<close> and sends nothing. A \<^verbatim>\<open>join\<close> that follows, by any
  connection \<open>w'\<close> with a room id that normalises to \<open>r\<close>, makes a room whose only member is
  \<open>w'\<close>, and the \<^verbatim>\<open>joined\<close> it sends to \<open>w'\<close> has an empty \<^verbatim>\<open>peers\<close>.
\<close>

theorem last_member_leaves:
  assumes "run init evs = Inr s"
    and "peerByWs s w = Some info" and "rooms s (roomId info) = Some [w]"
    and "e = Close w \<or> (\<exists>lm nd'. e = Message w (Some lm) nd' \<and> field lm ''type'' = JStr ''leave'')"
    and "field m ''type'' = JStr ''join''"
    and "requested_room (field m ''roomId'') = Inr (roomId info)"
  shows "\<exists>s1 s2. step s e = Inr s1 \<and> rooms s1 (roomId info) = None \<and> wire s1 = wire s \<and>
     step s1 (Message w' (Some m) nd) = Inr s2 \<and> rooms s2 (roomId info) = Some [w'] \<and>
     wire s2 = wire s @
       (if readyState s w' = 1 then [(w', Joined (roomId info) (join_userId nd m) [])] else [])"
proof -
  let ?r = "roomId info"
  let ?s1 = "leaveRoom w s"
  have r: "?r \<noteq> []" by (rule joined_room(3) [OF assms(1,2)])
  have s1: "?s1 = s\<lparr>peerByWs := (peerByWs s)(w := None), rooms := (rooms s)(?r := None)\<rparr>"
    by (simp add: leaveRoom_Some [OF assms(2,3)])
  from assms(4) have e: "step s e = Inr ?s1"
    by (auto simp: on_close_def on_message_leave)
  have m1: "members ?s1 ?r = []" by (simp add: s1 members_def)
  then have l1: "length (members ?s1 ?r) < 2" by simp
  have j: "step ?s1 (Message w' (Some m) nd) =
      Inr (?s1\<lparr> var_userId := (var_userId ?s1)(w' := join_userId nd m),
             var_roomId := (var_roomId ?s1)(w' := Some ?r),
             rooms := (rooms ?s1)(?r \<mapsto> [w']),
             peerByWs := (peerByWs ?s1)(w' \<mapsto> \<lparr>roomId = ?r, userId = join_userId nd m\<rparr>),
             wire := wire ?s1 @
               (if readyState s w' = 1 then [(w', Joined ?r (join_userId nd m) [])] else [])\<rparr>)"
    by (simp add: on_message_join [OF assms(5)] join_case_accept [OF assms(6) r l1] m1
        set_add_def)
  then obtain s2 where s2: "step ?s1 (Message w' (Some m) nd) = Inr s2"
    and r2: "rooms s2 ?r = Some [w']"
    and w2: "wire s2 = wire s @
       (if readyState s w' = 1 then [(w', Joined ?r (join_userId nd m) [])] else [])"
    by (simp add: s1)
  have "rooms ?s1 ?r = None" and "wire ?s1 = wire s"
    by (simp_all add: s1)
  with e s2 r2 w2 show ?thesis by blast
qed

theorem last_member_leaves_witness:
  "\<not> isl (run init [Message 0 (Some (msg_join_as ''Room1 '' ''alice'')) clock]) \<and>
   rooms (projr (run init [Message 0 (Some (msg_join_as ''Room1 '' ''alice'')) clock,
                           Message 0 (Some msg_leave) clock])) ''room1'' = None \<and>
   rooms (projr (run init [Message 0 (Some (msg_join_as ''Room1 '' ''alice'')) clock,
                           Message 0 (Some msg_leave) clock,
                           Message 1 (Some (msg_join_as '' ROOM1'' ''bob'')) clock])) ''room1'' =
     Some [1] \<and>
   wire (projr (run init [Message 0 (Some (msg_join_as ''Room1 '' ''alice'')) clock,
                           Message 0 (Some msg_leave) clock,
                           Message 1 (Some (msg_join_as '' ROOM1'' ''bob'')) clock])) =
     [(0, Joined ''room1'' (JStr ''alice'') []), (1, Joined ''room1'' (JStr ''bob'') [])]"
proof -
  let ?evs = "[Message 0 (Some (msg_join_as ''Room1 '' ''alice'')) clock]"
  let ?m = "msg_join_as '' ROOM1'' ''bob''"
  obtain s where s: "run init ?evs = Inr s"
    by (simp add: eval_defs)
  have p: "peerByWs s 0 = Some \<lparr>roomId = ''room1'', userId = JStr ''alice''\<rparr>"
    and r: "rooms s (roomId \<lparr>roomId = ''room1'', userId = JStr ''alice''\<rparr>) = Some [0]"
    and o: "readyState s 1 = 1"
    and w: "wire s = [(0, Joined ''room1'' (JStr ''alice'') [])]"
    using s by (auto simp: eval_defs)
  have e: "Message 0 (Some msg_leave) clock = Close 0 \<or>
      (\<exists>lm nd'. Message 0 (Some msg_leave) clock = Message 0 (Some lm) nd' \<and>
         field lm ''type'' = JStr ''leave'')"
    by (simp add: msg_leave_def)
  have m: "field ?m ''type'' = JStr ''join''"
    "requested_room (field ?m ''roomId'') = Inr (roomId \<lparr>roomId = ''room1'', userId = JStr ''alice''\<rparr>)"
    by (simp_all add: msg_join_as_def requested_room_examples)
  from last_member_leaves [OF s p r e m, of 1 clock] obtain s1 s2
    where 1: "step s (Message 0 (Some msg_leave) clock) = Inr s1"
      and 2: "rooms s1 ''room1'' = None"
      and 3: "step s1 (Message 1 (Some ?m) clock) = Inr s2"
      and 4: "rooms s2 ''room1'' = Some [1]"
      and 5: "wire s2 = wire s @
       (if readyState s 1 = 1 then [(1, Joined ''room1'' (join_userId clock ?m) [])] else [])"
    by auto
  have a: "run init (?evs @ [Message 0 (Some msg_leave) clock]) = Inr s1"
    unfolding run_append s using 1 by simp
  have b: "run init (?evs @ [Message 0 (Some msg_leave) clock, Message 1 (Some ?m) clock]) = Inr s2"
    unfolding run_append s using 1 3 by simp
  show ?thesis
    using a b s 2 4 5 o w by (simp add: join_userId_def msg_join_as_def)
qed



text \<open>
  C5, as stated: after a \<^verbatim>\<open>leave\<close> message the connection is terminal, and no \<^verbatim>\<open>join\<close>
  from it can succeed. The server does not close the connection and keeps no mark of the
  leave: connection 0 joins, leaves (its entry is gone), joins again, and is joined.
\<close>

theorem leave_then_join_counterexample:
  "\<not> isl (run init [Message 0 (Some (msg_join_as ''room1'' ''alice'')) clock,
                     Message 0 (Some msg_leave) clock,
                     Message 0 (Some (msg_join_as ''room1'' ''alice2'')) clock]) \<and>
   peerByWs (projr (run init [Message 0 (Some (msg_join_as ''room1'' ''alice'')) clock,
                              Message 0 (Some msg_leave) clock])) 0 = None \<and>
   peerByWs (projr (run init [Message 0 (Some (msg_join_as ''room1'' ''alice'')) clock,
                              Message 0 (Some msg_leave) clock,
                              Message 0 (Some (msg_join_as ''room1'' ''alice2'')) clock])) 0 =
     Some \<lparr>roomId = ''room1'', userId = JStr ''alice2''\<rparr> \<and>
   wire (projr (run init [Message 0 (Some (msg_join_as ''room1'' ''alice'')) clock,
                          Message 0 (Some msg_leave) clock,
                          Message 0 (Some (msg_join_as ''room1'' ''alice2'')) clock])) =
     [(0, Joined ''room1'' (JStr ''alice'') []), (0, Joined ''room1'' (JStr ''alice2'') [])]"
  by (simp add: eval_defs)

text \<open>
  C5, amended. A \<^verbatim>\<open>leave\<close> message removes the entry of the connection, and the
  connection is not terminal: a \<^verbatim>\<open>join\<close> that follows on it, for a room that then has
  fewer than 2 members, is accepted as any join is. The connection has an entry again and is
  a member of the room; \<^verbatim>\<open>joined\<close> goes to it (when open) with the ids of the other
  members, and \<^verbatim>\<open>peer-joined\<close> to the other open members.
\<close>

theorem leave_not_terminal:
  assumes "field lm ''type'' = JStr ''leave''"
    and "field m ''type'' = JStr ''join''" and "requested_room (field m ''roomId'') = Inr r"
    and "r \<noteq> []" and "length (members (leaveRoom w s) r) < 2"
  shows "\<exists>s2. run s [Message w (Some lm) nd', Message w (Some m) nd] = Inr s2 \<and>
     peerByWs (leaveRoom w s) w = None \<and>
     peerByWs s2 w = Some \<lparr>roomId = r, userId = join_userId nd m\<rparr> \<and>
     var_roomId s2 w = Some r \<and>
     rooms s2 r = Some (set_add (members (leaveRoom w s) r) w) \<and>
     wire s2 = wire (leaveRoom w s) @
       (if readyState s w = 1
        then [(w, Joined r (join_userId nd m)
                    (map (userId_of (leaveRoom w s))
                       (filter (\<lambda>x. x \<noteq> w) (members (leaveRoom w s) r))))]
        else []) @
       map (\<lambda>x. (x, Peer_joined r (join_userId nd m)))
         (filter (\<lambda>x. x \<noteq> w \<and> readyState s x = 1) (members (leaveRoom w s) r))"
  by (simp add: on_message_leave [OF assms(1)] on_message_join [OF assms(2)]
      join_case_accept [OF assms(3,4,5)] leaveRoom_peerByWs)

theorem leave_not_terminal_witness:
  "wire (projr (run (projr (run init [Message 0 (Some (msg_join_as ''room1'' ''alice'')) clock,
                                      Message 1 (Some (msg_join_as ''room1'' ''bob'')) clock]))
                [Message 0 (Some msg_leave) clock,
                 Message 0 (Some (msg_join_as ''Room1 '' ''alice2'')) clock])) =
     [(0, Joined ''room1'' (JStr ''alice'') []),
      (1, Joined ''room1'' (JStr ''bob'') [JStr ''alice'']),
      (0, Peer_joined ''room1'' (JStr ''bob'')),
      (1, Peer_left (JStr ''alice'')),
      (0, Joined ''room1'' (JStr ''alice2'') [JStr ''bob'']),
      (1, Peer_joined ''room1'' (JStr ''alice2''))]"
proof -
  let ?evs = "[Message 0 (Some (msg_join_as ''room1'' ''alice'')) clock,
               Message 1 (Some (msg_join_as ''room1'' ''bob'')) clock]"
  let ?m = "msg_join_as ''Room1 '' ''alice2''"
  obtain s where s: "run init ?evs = Inr s"
    by (simp add: eval_defs)
  have l: "leaveRoom 0 s = s\<lparr>peerByWs := (peerByWs s)(0 := None),
        rooms := (rooms s)(''room1'' \<mapsto> [1]),
        wire := wire s @ [(1, Peer_left (JStr ''alice''))]\<rparr>"
    and o: "readyState s 0 = 1" "readyState s 1 = 1"
    and u: "userId_of s 1 = JStr ''bob''"
    and w: "wire s = [(0, Joined ''room1'' (JStr ''alice'') []),
      (1, Joined ''room1'' (JStr ''bob'') [JStr ''alice'']),
      (0, Peer_joined ''room1'' (JStr ''bob''))]"
    using s by (auto simp: eval_defs)
  have h: "field msg_leave ''type'' = JStr ''leave''"
    "field ?m ''type'' = JStr ''join''"
    "requested_room (field ?m ''roomId'') = Inr ''room1''"
    "''room1'' \<noteq> []"
    "length (members (leaveRoom 0 s) ''room1'') < 2"
    by (simp_all add: msg_leave_def msg_join_as_def requested_room_examples l members_def)
  from leave_not_terminal [OF h, of clock clock] o u w
  show ?thesis unfolding s
    by (auto simp: l members_def userId_of_def join_userId_def msg_join_as_def)
qed

text \<open>
  C6, as stated: a connection is in the member set of at most one room, and a \<^verbatim>\<open>join\<close>
  never overwrites the entry of a connection that has one. The \<^verbatim>\<open>join\<close> case does not
  look at \<open>peerByWs\<close>: connection 0 joins \<^verbatim>\<open>room1\<close> and then \<^verbatim>\<open>lobby\<close>; its entry is
  overwritten and it is a member of both rooms.
\<close>

theorem rejoin_other_room_counterexample:
  "\<not> isl (run init [Message 0 (Some (msg_join_as ''room1'' ''alice'')) clock,
                     Message 0 (Some (msg_join_as ''lobby'' ''alice2'')) clock]) \<and>
   peerByWs (projr (run init [Message 0 (Some (msg_join_as ''room1'' ''alice'')) clock])) 0 =
     Some \<lparr>roomId = ''room1'', userId = JStr ''alice''\<rparr> \<and>
   peerByWs (projr (run init [Message 0 (Some (msg_join_as ''room1'' ''alice'')) clock,
                              Message 0 (Some (msg_join_as ''lobby'' ''alice2'')) clock])) 0 =
     Some \<lparr>roomId = ''lobby'', userId = JStr ''alice2''\<rparr> \<and>
   rooms (projr (run init [Message 0 (Some (msg_join_as ''room1'' ''alice'')) clock,
                           Message 0 (Some (msg_join_as ''lobby'' ''alice2'')) clock])) ''room1'' =
     Some [0] \<and>
   rooms (projr (run init [Message 0 (Some (msg_join_as ''room1'' ''alice'')) clock,
                           Message 0 (Some (msg_join_as ''lobby'' ''alice2'')) clock])) ''lobby'' =
     Some [0]"
  by (simp add: eval_defs)

text \<open>
  C6, amended. After a run in which no \<^verbatim>\<open>join\<close> message arrives on a connection that has
  an entry in \<open>peerByWs\<close> at that moment, every member of a room has an entry that names
  this room; so a connection is in the member set of at most one room.
\<close>

theorem one_room_without_rejoin:
  assumes "run init evs = Inr s" and "no_rejoin init evs"
    and "rooms s r = Some room" and "w \<in> set room"
  shows "(\<exists>info. peerByWs s w = Some info \<and> roomId info = r) \<and>
     (\<forall>r' room'. rooms s r' = Some room' \<and> w \<in> set room' \<longrightarrow> r' = r)"
proof -
  note O = one_room_run [OF one_room_init assms(2,1)]
  from one_roomD [OF O assms(3,4)] obtain info
    where i: "peerByWs s w = Some info" "roomId info = r" by blast
  have "r' = r" if "rooms s r' = Some room'" and "w \<in> set room'" for r' room'
    using one_roomD [OF O that] i by auto
  with i show ?thesis by blast
qed

theorem one_room_without_rejoin_witness:
  "\<not> isl (run init [Message 0 (Some (msg_join_as ''room1'' ''alice'')) clock,
                     Message 0 (Some msg_leave) clock,
                     Message 0 (Some (msg_join_as ''lobby'' ''alice2'')) clock]) \<and>
   no_rejoin init [Message 0 (Some (msg_join_as ''room1'' ''alice'')) clock,
                   Message 0 (Some msg_leave) clock,
                   Message 0 (Some (msg_join_as ''lobby'' ''alice2'')) clock] \<and>
   rooms (projr (run init [Message 0 (Some (msg_join_as ''room1'' ''alice'')) clock,
                     Message 0 (Some msg_leave) clock,
                     Message 0 (Some (msg_join_as ''lobby'' ''alice2'')) clock])) ''lobby'' = Some [0] \<and>
   rooms (projr (run init [Message 0 (Some (msg_join_as ''room1'' ''alice'')) clock,
                     Message 0 (Some msg_leave) clock,
                     Message 0 (Some (msg_join_as ''lobby'' ''alice2'')) clock])) ''room1'' = None \<and>
   roomId (the (peerByWs (projr (run init [Message 0 (Some (msg_join_as ''room1'' ''alice'')) clock,
                     Message 0 (Some msg_leave) clock,
                     Message 0 (Some (msg_join_as ''lobby'' ''alice2'')) clock])) 0)) = ''lobby''"
proof -
  let ?evs = "[Message 0 (Some (msg_join_as ''room1'' ''alice'')) clock,
               Message 0 (Some msg_leave) clock,
               Message 0 (Some (msg_join_as ''lobby'' ''alice2'')) clock]"
  obtain s where s: "run init ?evs = Inr s"
    by (simp add: eval_defs)
  have n: "no_rejoin init ?evs"
    by (simp add: eval_defs)
  have r: "rooms s ''lobby'' = Some [0]" and r1: "rooms s ''room1'' = None"
    using s by (auto simp: eval_defs)
  from one_room_without_rejoin [OF s n r, of 0] n r r1
  show ?thesis unfolding s by auto
qed

end
